theory Spec2Isabelle
  imports Complex_Main "HOL-Library.Multiset" "HOL-Library.Product_Lexorder" "HOL-Library.Word"
begin

section \<open>Errors\<close>

text \<open>
  The exceptions of \<^verbatim>\<open>datasets/DataReader.py\<close> that the model needs, as values.
\<close>

datatype error = AttributeError | TypeError | ValueError | KeyError | IndexError
  | OverflowError | BadZipFile | FileNotFoundError

section \<open>Floating-point numbers\<close>

text \<open>
  Ratings, ratios and the removal fraction are floating-point numbers. A finite double is
  read as the real number it denotes; a result that is no finite double (an infinity) is
  \<open>None\<close>. Python adds and multiplies doubles in IEEE arithmetic: the exact result is
  rounded to the nearest double, a tie to the one with the even significand.

  \<open>bit_length n\<close> is the number of binary digits of \<open>n\<close>, \<open>ilog2 x\<close> the integer part
  of the binary logarithm of \<open>x > 0\<close>, and \<open>pow2 e\<close> the power \<open>2^e\<close> for an integer \<open>e\<close>.
  \<open>round_double\<close> rounds to 53 significant binary digits, and below \<open>2^-1022\<close> to a
  multiple of \<open>2^-1074\<close>. \<open>overflows x\<close> says that \<open>x\<close> rounds beyond the largest double,
  which is so from \<open>2^1024 - 2^970\<close> on (lemma \<open>overflows_iff\<close>).
\<close>

fun bit_length :: "nat \<Rightarrow> nat" where
  "bit_length 0 = 0"
| "bit_length (Suc n) = Suc (bit_length (Suc n div 2))"

definition ilog2 :: "real \<Rightarrow> int" where
  "ilog2 x = (if 1 \<le> x then int (bit_length (nat \<lfloor>x\<rfloor>)) - 1
              else - int (bit_length (nat (\<lceil>1 / x\<rceil> - 1))))"

definition pow2 :: "int \<Rightarrow> real" where
  "pow2 e = (if 0 \<le> e then 2 ^ nat e else 1 / 2 ^ nat (- e))"

definition round_even :: "real \<Rightarrow> int" where
  "round_even m =
     (let f = \<lfloor>m\<rfloor>; d = m - of_int f
      in if d < 1 / 2 then f else if 1 / 2 < d then f + 1 else if even f then f else f + 1)"

definition round_double :: "real \<Rightarrow> real" where
  "round_double x =
     (if x = 0 then 0
      else let e = max (ilog2 \<bar>x\<bar> - 52) (- 1074)
           in of_int (round_even (x / pow2 e)) * pow2 e)"

definition overflows :: "real \<Rightarrow> bool" where
  "overflows x \<longleftrightarrow> 1024 < bit_length (nat \<lfloor>\<bar>x\<bar> + \<bar>x\<bar> / (2 ^ 54 - 1)\<rfloor>)"

definition fadd :: "real \<Rightarrow> real \<Rightarrow> real option" where
  "fadd x y = (if overflows (x + y) then None else Some (round_double (x + y)))"

definition fmul :: "real \<Rightarrow> real \<Rightarrow> real option" where
  "fmul x y = (if overflows (x * y) then None else Some (round_double (x * y)))"

text \<open>
  Python's \<^verbatim>\<open>sum(xs)\<close> on a list of doubles: it adds them to 0 from left to right, each
  addition rounded. Once the sum is infinite it stays so or becomes NaN.
\<close>

definition py_sum :: "real list \<Rightarrow> real option" where
  "py_sum xs = foldl (\<lambda>acc x. case acc of None \<Rightarrow> None | Some a \<Rightarrow> fadd a x) (Some 0) xs"

text \<open>The sum of a list of numbers without any rounding.\<close>

definition exact_sum :: "real list \<Rightarrow> real" where
  "exact_sum xs = foldl (+) 0 xs"

section \<open>DataReader: configuration\<close>

text \<open>
  A dictionary with string keys is an association list, read as the dictionary that binds
  each key to its first value in the list. \<^verbatim>\<open>len\<close> counts the keys; \<^verbatim>\<open>d[k]\<close> raises
  KeyError for a key that is not bound.
\<close>

definition dict_len :: "(string \<times> 'v) list \<Rightarrow> nat" where
  "dict_len d = length (remdups (map fst d))"

definition dict_get :: "(string \<times> 'v) list \<Rightarrow> string \<Rightarrow> error + 'v" where
  "dict_get d k = (case map_of d k of None \<Rightarrow> Inl KeyError | Some v \<Rightarrow> Inr v)"

text \<open>
  The \<^verbatim>\<open>config\<close> dictionary built by the constructor, and the fields of the object
  that the constructor sets.
\<close>

record config =
  cfg_use_cols :: "(string \<times> int) list"
  cfg_split_ratio :: "real list"
  cfg_stratified_on :: string
  cfg_header :: bool
  cfg_delim :: string
  cfg_implicit :: bool
  cfg_remove_top_pop :: real
  cfg_seed :: int

record reader =
  use_local :: bool
  force_rebuild :: bool
  save_local :: bool
  min_ratings :: int
  verbose :: bool
  use_cols :: "(string \<times> int) list"
  split_ratio :: "real list"
  stratified_on :: string
  header :: bool
  delimiter :: string
  remove_top_pop :: real
  implicit :: bool
  config :: config

record init_args =
  arg_use_cols :: "(string \<times> int) list"
  arg_split_ratio :: "real list"
  arg_stratified_on :: string
  arg_header :: bool
  arg_delim :: string
  arg_implicit :: bool
  arg_remove_top_pop :: real
  arg_use_local :: bool
  arg_force_rebuild :: bool
  arg_save_local :: bool
  arg_min_ratings :: int
  arg_verbose :: bool
  arg_seed :: int

text \<open>
  The file system is the only thing outside the object that the class reads or writes:
  a map from paths to files. A file is either a well-formed zip archive, given by its
  members (name and content), or any other sequence of bytes. \<^verbatim>\<open>__init__\<close> takes the
  file system and returns it, so that what the constructor does to it can be stated.
\<close>

datatype fsfile = Archive "(string \<times> string) list" | Plain string

type_synonym filesystem = "string \<rightharpoonup> fsfile"

definition init :: "init_args \<Rightarrow> filesystem \<Rightarrow> (error + reader) \<times> filesystem" where
  "init a fs =
     (if py_sum (arg_split_ratio a) \<noteq> Some 1 \<or> length (arg_split_ratio a) \<noteq> 3
      then (Inl AttributeError, fs)
      else
        let imp = (if dict_len (arg_use_cols a) < 3 then True else arg_implicit a) in
        (Inr \<lparr> use_local = arg_use_local a,
               force_rebuild = arg_force_rebuild a,
               save_local = arg_save_local a,
               min_ratings = arg_min_ratings a,
               verbose = arg_verbose a,
               use_cols = arg_use_cols a,
               split_ratio = arg_split_ratio a,
               stratified_on = arg_stratified_on a,
               header = arg_header a,
               delimiter = arg_delim a,
               remove_top_pop = arg_remove_top_pop a,
               implicit = imp,
               config = \<lparr> cfg_use_cols = arg_use_cols a,
                          cfg_split_ratio = arg_split_ratio a,
                          cfg_stratified_on = arg_stratified_on a,
                          cfg_header = arg_header a,
                          cfg_delim = arg_delim a,
                          cfg_implicit = imp,
                          cfg_remove_top_pop = arg_remove_top_pop a,
                          cfg_seed = arg_seed a \<rparr> \<rparr>, fs))"

text \<open>
  The default arguments of the constructor. The literals \<^verbatim>\<open>0.6\<close> and \<^verbatim>\<open>0.2\<close> denote
  the doubles nearest to them (lemma \<open>default_ratio_doubles\<close>).
\<close>

definition default_args :: init_args where
  "default_args =
     \<lparr> arg_use_cols = [(''user_id'', 0), (''item_id'', 1), (''rating'', 2)],
       arg_split_ratio = [5404319552844595 / 2 ^ 53, 3602879701896397 / 2 ^ 54,
                          3602879701896397 / 2 ^ 54],
       arg_stratified_on = ''item_popularity'',
       arg_header = False,
       arg_delim = '','',
       arg_implicit = False,
       arg_remove_top_pop = 0,
       arg_use_local = True,
       arg_force_rebuild = False,
       arg_save_local = True,
       arg_min_ratings = 1,
       arg_verbose = True,
       arg_seed = 1234 \<rparr>"

section \<open>Interaction parser\<close>

text \<open>
  \<^verbatim>\<open>line.split(delimiter)\<close>: the pieces of \<open>line\<close> between the occurrences of the
  delimiter, found from left to right; an empty delimiter raises ValueError.
\<close>

fun split_from :: "string \<Rightarrow> nat \<Rightarrow> string \<Rightarrow> string \<Rightarrow> string list" where
  "split_from sep skip cur [] = [rev cur]"
| "split_from sep skip cur (c # cs) =
     (if 0 < skip then split_from sep (skip - 1) cur cs
      else if take (length sep) (c # cs) = sep
      then rev cur # split_from sep (length sep - 1) [] cs
      else split_from sep 0 (c # cur) cs)"

definition py_split :: "string \<Rightarrow> string \<Rightarrow> error + string list" where
  "py_split line sep = (if sep = [] then Inl ValueError else Inr (split_from sep 0 [] line))"

text \<open>Python indexing: a negative index counts from the end, an index out of range raises.\<close>

definition py_index :: "'a list \<Rightarrow> int \<Rightarrow> error + 'a" where
  "py_index xs i =
     (if 0 \<le> i \<and> i < int (length xs) then Inr (xs ! nat i)
      else if i < 0 \<and> - int (length xs) \<le> i then Inr (xs ! nat (int (length xs) + i))
      else Inl IndexError)"

definition bind_err :: "error + 'a \<Rightarrow> ('a \<Rightarrow> error + 'b) \<Rightarrow> error + 'b" where
  "bind_err m f = (case m of Inl e \<Rightarrow> Inl e | Inr x \<Rightarrow> f x)"

text \<open>
  One pass of the loop body of \<^verbatim>\<open>read_interactions\<close> (lines 333 to 336). The builtins
  \<^verbatim>\<open>int\<close> and \<^verbatim>\<open>float\<close> are parameters: they give no value where Python raises
  ValueError. \<^verbatim>\<open>rows\<close> and \<^verbatim>\<open>cols\<close> are \<^verbatim>\<open>array.array('I')\<close>: arrays of unsigned
  32-bit integers, whose \<^verbatim>\<open>append\<close> raises OverflowError for a value out of range.
\<close>

definition append_I :: "int \<Rightarrow> error + 32 word" where
  "append_I x = (if 0 \<le> x \<and> x < 2 ^ 32 then Inr (word_of_int x) else Inl OverflowError)"

definition int_field ::
  "(string \<Rightarrow> int option) \<Rightarrow> (string \<times> int) list \<Rightarrow> string list \<Rightarrow> string
     \<Rightarrow> error + 32 word" where
  "int_field parse_int cols_of row_data key =
     bind_err (dict_get cols_of key) (\<lambda>c.
     bind_err (py_index row_data c) (\<lambda>field.
       case parse_int field of None \<Rightarrow> Inl ValueError | Some x \<Rightarrow> append_I x))"

definition float_field ::
  "(string \<Rightarrow> real option) \<Rightarrow> (string \<times> int) list \<Rightarrow> string list \<Rightarrow> string
     \<Rightarrow> error + real" where
  "float_field parse_float cols_of row_data key =
     bind_err (dict_get cols_of key) (\<lambda>c.
     bind_err (py_index row_data c) (\<lambda>field.
       case parse_float field of None \<Rightarrow> Inl ValueError | Some x \<Rightarrow> Inr x))"

definition parse_line ::
  "(string \<Rightarrow> int option) \<Rightarrow> (string \<Rightarrow> real option) \<Rightarrow> (string \<times> int) list \<Rightarrow> string
     \<Rightarrow> string \<Rightarrow> error + 32 word \<times> 32 word \<times> real" where
  "parse_line parse_int parse_float cols_of delim line =
     bind_err (py_split line delim) (\<lambda>row_data.
     bind_err (int_field parse_int cols_of row_data ''user_id'') (\<lambda>u.
     bind_err (int_field parse_int cols_of row_data ''item_id'') (\<lambda>i.
     bind_err (float_field parse_float cols_of row_data ''rating'') (\<lambda>v.
       Inr (u, i, v)))))"

text \<open>
  \<^verbatim>\<open>read_interactions\<close> on a file given by its lines: the header line is skipped when
  asked, every other line appends one value to each of the three arrays, and the first
  error ends the call.
\<close>

fun read_loop ::
  "(string \<Rightarrow> error + 32 word \<times> 32 word \<times> real) \<Rightarrow> string list
     \<Rightarrow> 32 word list \<Rightarrow> 32 word list \<Rightarrow> real list
     \<Rightarrow> error + 32 word list \<times> 32 word list \<times> real list" where
  "read_loop body [] rows cols data = Inr (rows, cols, data)"
| "read_loop body (line # ls) rows cols data =
     (case body line of
        Inl e \<Rightarrow> Inl e
      | Inr (u, i, v) \<Rightarrow> read_loop body ls (rows @ [u]) (cols @ [i]) (data @ [v]))"

definition read_interactions ::
  "(string \<Rightarrow> int option) \<Rightarrow> (string \<Rightarrow> real option) \<Rightarrow> string list
     \<Rightarrow> (string \<times> int) list \<Rightarrow> string \<Rightarrow> bool
     \<Rightarrow> error + 32 word list \<times> 32 word list \<times> real list" where
  "read_interactions parse_int parse_float lines cols_of delim hdr =
     read_loop (parse_line parse_int parse_float cols_of delim)
               (if hdr then drop 1 lines else lines) [] [] []"

section \<open>Sparse matrices\<close>

text \<open>
  A matrix in coordinate form (\<^verbatim>\<open>scipy.sparse.coo_matrix\<close>): its shape and its stored
  entries. scipy keeps three parallel arrays \<^verbatim>\<open>row\<close>, \<^verbatim>\<open>col\<close>, \<^verbatim>\<open>data\<close> of one
  length; the model keeps the list of the triples \<open>((row, col), value)\<close> in array order.
  The same coordinate may be stored more than once. \<^verbatim>\<open>nnz\<close> is the number of stored
  entries. The values are the single-precision numbers that the matrices of the class
  store, so that building a matrix from them with \<^verbatim>\<open>dtype=np.float32\<close> changes none.
\<close>

type_synonym entry = "(nat \<times> nat) \<times> real"

record coo_matrix =
  shape :: "nat \<times> nat"
  entries :: "entry list"

definition nnz :: "coo_matrix \<Rightarrow> nat" where
  "nnz m = length (entries m)"

text \<open>
  A matrix in compressed-row form (\<^verbatim>\<open>scipy.sparse.csr_matrix\<close>) as \<^verbatim>\<open>tocsr()\<close>
  produces it: the entries in row-major order, the values stored at one coordinate added
  into one entry (\<^verbatim>\<open>sum_duplicates\<close>). Explicit zeros stay stored.
\<close>

record csr_matrix =
  csr_shape :: "nat \<times> nat"
  csr_entries :: "entry list"

definition csr_nnz :: "csr_matrix \<Rightarrow> nat" where
  "csr_nnz m = length (csr_entries m)"

definition sum_duplicates :: "entry list \<Rightarrow> entry list" where
  "sum_duplicates es =
     map (\<lambda>k. (k, sum_list (map snd (filter (\<lambda>e. fst e = k) es))))
         (sort (remdups (map fst es)))"

definition tocsr :: "coo_matrix \<Rightarrow> csr_matrix" where
  "tocsr m = \<lparr> csr_shape = shape m, csr_entries = sum_duplicates (entries m) \<rparr>"

definition tocoo :: "csr_matrix \<Rightarrow> coo_matrix" where
  "tocoo m = \<lparr> shape = csr_shape m, entries = csr_entries m \<rparr>"

text \<open>
  \<^verbatim>\<open>sps.coo_matrix((data[mask], (row[mask], col[mask])), shape=shape)\<close> with the boolean
  mask \<^verbatim>\<open>choice == l\<close> (or \<^verbatim>\<open>choice != l\<close>): the entries whose label is (is not) \<open>l\<close>.
\<close>

definition select_eq :: "'l \<Rightarrow> 'l list \<Rightarrow> entry list \<Rightarrow> entry list" where
  "select_eq l choice es = map snd (filter (\<lambda>ce. fst ce = l) (zip choice es))"

definition select_ne :: "'l \<Rightarrow> 'l list \<Rightarrow> entry list \<Rightarrow> entry list" where
  "select_ne l choice es = map snd (filter (\<lambda>ce. fst ce \<noteq> l) (zip choice es))"

section \<open>Matrix builder\<close>

text \<open>
  The numpy functions that \<^verbatim>\<open>build_URM\<close> uses. \<^verbatim>\<open>np.unique\<close> gives the sorted
  distinct values, with \<^verbatim>\<open>return_counts\<close> also how often each occurs; indexing with a
  boolean mask keeps the positions where the mask holds; \<^verbatim>\<open>np.isin\<close> tests membership
  element by element.
\<close>

definition np_unique :: "int list \<Rightarrow> int list" where
  "np_unique xs = sort (remdups xs)"

definition unique_counts :: "int list \<Rightarrow> nat list" where
  "unique_counts xs = map (count_list xs) (np_unique xs)"

definition mask_select :: "bool list \<Rightarrow> 'a list \<Rightarrow> 'a list" where
  "mask_select bs xs = map snd (filter fst (zip bs xs))"

definition np_isin :: "int list \<Rightarrow> int list \<Rightarrow> bool list" where
  "np_isin xs ys = map (\<lambda>x. x \<in> set ys) xs"

text \<open>
  \<^verbatim>\<open>np.argsort\<close> sorts with an unstable algorithm by default, so the order it gives to
  equal counts is not fixed: it is a parameter of the builder, of which only what numpy
  promises is assumed, that the result is a permutation of the indices which puts the
  values in ascending order.
\<close>

type_synonym argsort = "nat list \<Rightarrow> nat list"

definition is_argsort :: "argsort \<Rightarrow> bool" where
  "is_argsort f \<longleftrightarrow>
     (\<forall>cs. mset (f cs) = mset [0..<length cs] \<and> sorted (map ((!) cs) (f cs)))"

text \<open>
  \<^verbatim>\<open>dict(zip(ks, range(0, len(ks))))\<close>: a later binding of a key replaces an earlier one.
\<close>

definition index_map :: "int list \<Rightarrow> (int \<rightharpoonup> nat)" where
  "index_map ks = map_of (rev (zip ks [0..<length ks]))"

text \<open>
  Lines 391 to 403. The arrays \<^verbatim>\<open>rows\<close> and \<^verbatim>\<open>cols\<close> hold unsigned 32-bit integers,
  and numpy reads them as such (\<open>uint\<close>) in \<^verbatim>\<open>np.unique\<close> and \<^verbatim>\<open>np.isin\<close>. When a
  fraction of the items is removed, \<^verbatim>\<open>np.frombuffer(_, dtype=np.int32)\<close> reads the same
  bits as signed integers (\<open>sint\<close>). \<open>by_popularity\<close> is
  \<^verbatim>\<open>unique_items[sorted_indices]\<close>: the items from the most to the least frequent.
  \<open>top_pop_k\<close> is line 394, \<^verbatim>\<open>int(np.floor(len(unique_items) * remove_top_pop))\<close>:
  the floor of the product as the double that the multiplication gives.
\<close>

definition top_pop_k :: "nat \<Rightarrow> real \<Rightarrow> nat" where
  "top_pop_k n r = nat \<lfloor>round_double (real n * r)\<rfloor>"

definition by_popularity :: "argsort \<Rightarrow> 32 word list \<Rightarrow> int list" where
  "by_popularity asort cols =
     map ((!) (np_unique (map uint cols))) (rev (asort (unique_counts (map uint cols))))"

record filtered =
  f_rows :: "int list"
  f_cols :: "int list"
  f_data :: "real list"
  f_unique_items :: "int list"

definition remove_top ::
  "argsort \<Rightarrow> real \<Rightarrow> 32 word list \<Rightarrow> 32 word list \<Rightarrow> real list \<Rightarrow> filtered" where
  "remove_top asort r rows cols data =
     (if 0 < r then
        let k = top_pop_k (length (np_unique (map uint cols))) r;
            unique_items = drop k (by_popularity asort cols);
            col_mask = np_isin (map uint cols) unique_items
        in \<lparr> f_rows = mask_select col_mask (map sint rows),
             f_cols = mask_select col_mask (map sint cols),
             f_data = mask_select col_mask data,
             f_unique_items = unique_items \<rparr>
      else \<lparr> f_rows = map uint rows, f_cols = map uint cols, f_data = data,
             f_unique_items = np_unique (map uint cols) \<rparr>)"

text \<open>
  \<^verbatim>\<open>sps.coo_matrix((data, (coo_rows, coo_cols)), shape=shape)\<close>. The index arrays come
  from \<^verbatim>\<open>pd.Series(_).map(dict)\<close>, which gives NaN (here \<open>None\<close>) for a value that is no
  key of the dictionary. scipy raises ValueError when the three arrays differ in length
  and when an index is not within the shape, which no NaN is.
\<close>

definition coo_matrix_of ::
  "real list \<Rightarrow> nat option list \<Rightarrow> nat option list \<Rightarrow> nat \<times> nat \<Rightarrow> error + coo_matrix" where
  "coo_matrix_of data coo_rows coo_cols sh =
     (if length coo_rows \<noteq> length data \<or> length coo_cols \<noteq> length data then Inl ValueError
      else if list_ex (\<lambda>i. case i of None \<Rightarrow> True | Some j \<Rightarrow> fst sh \<le> j) coo_rows
            \<or> list_ex (\<lambda>i. case i of None \<Rightarrow> True | Some j \<Rightarrow> snd sh \<le> j) coo_cols
      then Inl ValueError
      else Inr \<lparr> shape = sh, entries = zip (zip (map the coo_rows) (map the coo_cols)) data \<rparr>)"

text \<open>
  Lines 388 to 428 of \<^verbatim>\<open>build_URM\<close>, from the three arrays that \<^verbatim>\<open>read_interactions\<close>
  returned: the attributes \<^verbatim>\<open>row_to_user\<close>, \<^verbatim>\<open>col_to_item\<close> and \<^verbatim>\<open>URM\<close> (here \<open>urm\<close>) that
  the call sets. Saving the results to disk is left out. When the product of line 394 is
  infinite, \<^verbatim>\<open>int\<close> raises OverflowError.
\<close>

record built =
  row_to_user :: "int \<rightharpoonup> nat"
  col_to_item :: "int \<rightharpoonup> nat"
  urm :: coo_matrix

definition build_URM_from ::
  "argsort \<Rightarrow> bool \<Rightarrow> real \<Rightarrow> 32 word list \<Rightarrow> 32 word list \<Rightarrow> real list
     \<Rightarrow> error + built" where
  "build_URM_from asort imp r rows cols data =
     (if 0 < r \<and> overflows (real (length (np_unique (map uint cols))) * r)
      then Inl OverflowError
      else
        let data1 = (if imp then replicate (length data) 1 else data);
            f = remove_top asort r rows cols data1;
            unique_users = np_unique (f_rows f);
            sh = (length unique_users, length (f_unique_items f));
            r2u = index_map unique_users;
            c2i = index_map (f_unique_items f)
        in case coo_matrix_of (f_data f) (map r2u (f_rows f)) (map c2i (f_cols f)) sh of
             Inl e \<Rightarrow> Inl e
           | Inr m \<Rightarrow> Inr \<lparr> row_to_user = r2u, col_to_item = c2i, urm = m \<rparr>)"

definition build_URM ::
  "argsort \<Rightarrow> (string \<Rightarrow> int option) \<Rightarrow> (string \<Rightarrow> real option) \<Rightarrow> string list
     \<Rightarrow> (string \<times> int) list \<Rightarrow> string \<Rightarrow> bool \<Rightarrow> bool \<Rightarrow> real \<Rightarrow> error + built" where
  "build_URM asort parse_int parse_float lines cols_of delim hdr imp r =
     (case read_interactions parse_int parse_float lines cols_of delim hdr of
        Inl e \<Rightarrow> Inl e
      | Inr (rows, cols, data) \<Rightarrow> build_URM_from asort imp r rows cols data)"

text \<open>
  What is asked of an identifier mapping \<open>m\<close> for the sequence \<open>ks\<close> of raw ids: it is
  defined on these ids exactly, its values are exactly \<open>0, \<dots>, length ks - 1\<close>, it is
  injective, and it gives each id its position in \<open>ks\<close>.
\<close>

definition dense_index :: "(int \<rightharpoonup> nat) \<Rightarrow> int list \<Rightarrow> bool" where
  "dense_index m ks \<longleftrightarrow>
     dom m = set ks \<and> ran m = {0..<length ks} \<and> inj_on m (set ks)
     \<and> (\<forall>i < length ks. m (ks ! i) = Some i)"


section \<open>The random generator\<close>

text \<open>
  \<^verbatim>\<open>np.random.choice\<close> draws from the generator of the process, which the class never
  seeds. The state of that generator is modelled by the stream of raw draws it will give
  next; draw \<open>i\<close> picks the element of \<open>a\<close> at index \<open>g i mod length a\<close>, so that every
  stream denotes an outcome and every outcome is denoted by a stream. The call returns the
  \<open>n\<close> picks and the stream after them. numpy rejects an empty population and, when
  weights are given, weights of the wrong length, a negative weight, and weights whose sum
  is further than \<open>sqrt eps = 2^-26\<close> from 1. numpy adds the weights with a compensated
  summation, which is read as the exact sum.
\<close>

type_synonym rng = "nat \<Rightarrow> nat"

definition atol :: real where
  "atol = 1 / 2 ^ 26"

definition np_random_choice ::
  "rng \<Rightarrow> 'a list \<Rightarrow> real list option \<Rightarrow> nat \<Rightarrow> (error + 'a list) \<times> rng" where
  "np_random_choice g a p n =
     (if a = [] then (Inl ValueError, g)
      else if (case p of None \<Rightarrow> False
               | Some ps \<Rightarrow> length ps \<noteq> length a \<or> (\<exists>x \<in> set ps. x < 0)
                            \<or> \<bar>exact_sum ps - 1\<bar> > atol)
      then (Inl ValueError, g)
      else (Inr (map (\<lambda>i. a ! (g i mod length a)) [0..<n]), (\<lambda>i. g (i + n))))"

section \<open>Splitter\<close>

datatype label = Train | Test | Valid

text \<open>
  The pre-filter of \<^verbatim>\<open>split_urm\<close> (lines 480 to 486): the matrix goes to compressed-row
  form, \<^verbatim>\<open>user_mask\<close> holds the rows whose values sum to less than \<^verbatim>\<open>min_ratings\<close>,
  these rows are set to zero, and \<^verbatim>\<open>eliminate_zeros\<close> drops every stored zero.
\<close>

definition row_sum :: "entry list \<Rightarrow> nat \<Rightarrow> real" where
  "row_sum es r = sum_list (map snd (filter (\<lambda>e. fst (fst e) = r) es))"

definition remove_users :: "coo_matrix \<Rightarrow> int \<Rightarrow> coo_matrix" where
  "remove_users URM min_r =
     (let URM_csr = tocsr URM;
          user_mask = filter (\<lambda>r. row_sum (csr_entries URM_csr) r < of_int min_r)
                             [0..<fst (csr_shape URM_csr)];
          zeroed = map (\<lambda>e. if fst (fst e) \<in> set user_mask then (fst e, 0) else e)
                       (csr_entries URM_csr)
      in tocoo \<lparr> csr_shape = csr_shape URM_csr,
                 csr_entries = filter (\<lambda>e. snd e \<noteq> 0) zeroed \<rparr>)"

text \<open>
  \<^verbatim>\<open>split_urm\<close>. With \<^verbatim>\<open>min_ratings != 1\<close> and \<^verbatim>\<open>verbose\<close> set, line 478 adds the
  integer \<^verbatim>\<open>min_ratings\<close> to a string, which raises TypeError. The three results are
  returned in compressed-row form.
\<close>

definition split_urm ::
  "rng \<Rightarrow> coo_matrix \<Rightarrow> real list \<Rightarrow> int \<Rightarrow> bool
     \<Rightarrow> (error + csr_matrix \<times> csr_matrix \<times> csr_matrix) \<times> rng" where
  "split_urm g URM ratio min_r verb =
     (if min_r \<noteq> 1 \<and> verb then (Inl TypeError, g)
      else
        let URM1 = (if min_r \<noteq> 1 then remove_users URM min_r else URM) in
        case np_random_choice g [Train, Test, Valid] (Some ratio) (length (entries URM1)) of
          (Inl e, g') \<Rightarrow> (Inl e, g')
        | (Inr choice, g') \<Rightarrow>
            (Inr (tocsr \<lparr> shape = shape URM1, entries = select_eq Train choice (entries URM1) \<rparr>,
                  tocsr \<lparr> shape = shape URM1, entries = select_eq Test choice (entries URM1) \<rparr>,
                  tocsr \<lparr> shape = shape URM1, entries = select_eq Valid choice (entries URM1) \<rparr>),
             g'))"

section \<open>Cross-validator\<close>

text \<open>
  \<^verbatim>\<open>get_CV_folds\<close> is a generator; the model returns the list of the pairs it yields, in
  order, each pair \<open>(train, test)\<close>.
\<close>

definition get_CV_folds ::
  "rng \<Rightarrow> coo_matrix \<Rightarrow> nat \<Rightarrow> (error + (csr_matrix \<times> csr_matrix) list) \<times> rng" where
  "get_CV_folds g URM folds =
     (case np_random_choice g [0..<folds] None (length (entries URM)) of
        (Inl e, g') \<Rightarrow> (Inl e, g')
      | (Inr choice, g') \<Rightarrow>
          (Inr (map (\<lambda>i. (tocsr \<lparr> shape = shape URM, entries = select_ne i choice (entries URM) \<rparr>,
                           tocsr \<lparr> shape = shape URM, entries = select_eq i choice (entries URM) \<rparr>))
                    [0..<folds]),
           g'))"

section \<open>The split stage of a build\<close>

text \<open>
  \<^verbatim>\<open>build_local\<close> and \<^verbatim>\<open>build_remote\<close> call \<^verbatim>\<open>split_urm\<close> with the ratio, the
  threshold and the verbosity stored by the constructor (lines 106 to 110 and 149 to 153).
  The seed is stored in \<^verbatim>\<open>config\<close> only; no statement of the class passes it to the
  generator, whose state is therefore an input of the stage of its own.
\<close>

definition split_stage :: "init_args \<Rightarrow> rng \<Rightarrow> coo_matrix
    \<Rightarrow> error + csr_matrix \<times> csr_matrix \<times> csr_matrix" where
  "split_stage a g URM =
     (case fst (init a Map.empty) of
        Inl e \<Rightarrow> Inl e
      | Inr r \<Rightarrow> fst (split_urm g URM (split_ratio r) (min_ratings r) (verbose r)))"

text \<open>The number of entries stored in row \<open>r\<close>: the number of ratings of user \<open>r\<close>.\<close>

definition row_count :: "entry list \<Rightarrow> nat \<Rightarrow> nat" where
  "row_count es r = length (filter (\<lambda>e. fst (fst e) = r) es)"

section \<open>Download and extraction\<close>

text \<open>
  \<^verbatim>\<open>download_url\<close>: a response with status 200 is written to \<^verbatim>\<open>abs_path\<close>, which is
  returned. Any other status reaches line 205, where the message is built by adding the
  integer \<^verbatim>\<open>status_code\<close> to a string: that raises TypeError, with nothing written.
\<close>

record response =
  status_code :: nat
  body :: fsfile

definition download_url ::
  "filesystem \<Rightarrow> response \<Rightarrow> string \<Rightarrow> (error + string) \<times> filesystem" where
  "download_url fs resp abs_path =
     (if status_code resp = 200 then (Inr abs_path, fs(abs_path \<mapsto> body resp))
      else (Inl TypeError, fs))"

text \<open>
  \<^verbatim>\<open>os.path.dirname\<close> and \<^verbatim>\<open>os.path.join\<close> on POSIX paths: the head of a path ends
  at its last slash and loses its trailing slashes unless it consists of slashes only;
  joining puts one slash between the parts unless the second part is absolute.
\<close>

definition dirname :: "string \<Rightarrow> string" where
  "dirname p =
     (let head = rev (dropWhile (\<lambda>c. c \<noteq> CHR ''/'') (rev p))
      in if head \<noteq> [] \<and> \<not> list_all (\<lambda>c. c = CHR ''/'') head
         then rev (dropWhile (\<lambda>c. c = CHR ''/'') (rev head)) else head)"

definition path_join :: "string \<Rightarrow> string \<Rightarrow> string" where
  "path_join a b =
     (if b \<noteq> [] \<and> hd b = CHR ''/'' then b
      else if a = [] \<or> last a = CHR ''/'' then a @ b
      else a @ ''/'' @ b)"

text \<open>
  \<^verbatim>\<open>get_ratings_file\<close>. \<^verbatim>\<open>zipfile.ZipFile\<close> raises BadZipFile on a file that is no
  archive (line 128, before the \<^verbatim>\<open>try\<close>); \<^verbatim>\<open>extract\<close> raises KeyError for a member
  that the archive does not have. The handler of line 134 prints and raises again.
  \<^verbatim>\<open>os.remove\<close> is the statement after \<^verbatim>\<open>extract\<close> inside the \<^verbatim>\<open>try\<close>. The path
  of the download is absolute, so the member is extracted into its directory; the result
  is the value given to \<^verbatim>\<open>self.ratings_file\<close>.
\<close>

definition get_ratings_file ::
  "filesystem \<Rightarrow> response \<Rightarrow> string \<Rightarrow> string \<Rightarrow> (error + string) \<times> filesystem" where
  "get_ratings_file fs resp abs_path data_file =
     (case download_url fs resp abs_path of
        (Inl e, fs1) \<Rightarrow> (Inl e, fs1)
      | (Inr zip_file, fs1) \<Rightarrow>
          (case fs1 zip_file of
             None \<Rightarrow> (Inl FileNotFoundError, fs1)
           | Some (Plain bytes) \<Rightarrow> (Inl BadZipFile, fs1)
           | Some (Archive members) \<Rightarrow>
               (case map_of members data_file of
                  None \<Rightarrow> (Inl KeyError, fs1)
                | Some content \<Rightarrow>
                    (let ratings_file = path_join (dirname zip_file) data_file
                     in (Inr ratings_file,
                         (fs1(ratings_file \<mapsto> Plain content))(zip_file := None))))))"

section \<open>Concrete inputs\<close>

text \<open>Two generator states: the stream of zeros and the stream \<open>0, 1, 2, \<dots>\<close>.\<close>

definition zero_rng :: rng where
  "zero_rng i = 0"

definition count_rng :: rng where
  "count_rng i = i"

text \<open>
  The matrix of the three interactions \<^verbatim>\<open>1,10,5.0\<close>, \<^verbatim>\<open>2,10,3.0\<close>, \<^verbatim>\<open>1,20,4.0\<close>, and a
  matrix that stores the coordinate \<open>(0, 0)\<close> twice.
\<close>

definition example_urm :: coo_matrix where
  "example_urm = \<lparr> shape = (2, 2), entries = [((0, 0), 5), ((1, 0), 3), ((0, 1), 4)] \<rparr>"

definition dup_urm :: coo_matrix where
  "dup_urm = \<lparr> shape = (1, 1), entries = [((0, 0), 1), ((0, 0), 1)] \<rparr>"

text \<open>The double nearest to one third, which is what \<^verbatim>\<open>1/3\<close> gives in Python.\<close>

definition third :: real where
  "third = 6004799503160661 / 2 ^ 54"



text \<open>
  A matrix of explicit ratings: user 0 gave one rating of 5, user 1 gave two ratings of 0.5.
\<close>

definition ratings_urm :: coo_matrix where
  "ratings_urm = \<lparr> shape = (2, 2), entries = [((0, 0), 5), ((1, 0), 1 / 2), ((1, 1), 1 / 2)] \<rparr>"

text \<open>Two downloads: bytes that are no archive, and an archive with one member.\<close>

definition corrupt_response :: response where
  "corrupt_response = \<lparr> status_code = 200, body = Plain ''not a zip'' \<rparr>"

definition good_response :: response where
  "good_response = \<lparr> status_code = 200, body = Archive [(''ratings.csv'', ''1,10,5.0'')] \<rparr>"

text \<open>
  A reading of \<^verbatim>\<open>int\<close> on strings of decimal digits, and a column mapping without
  the key \<^verbatim>\<open>rating\<close>.
\<close>

definition dec_int :: "string \<Rightarrow> int option" where
  "dec_int s =
     (if s \<noteq> [] \<and> list_all (\<lambda>c. c \<in> set ''0123456789'') s
      then Some (foldl (\<lambda>a c. 10 * a + (of_char c - 48)) 0 s) else None)"

definition three_cols :: "(string \<times> int) list" where
  "three_cols = [(''user_id'', 0), (''item_id'', 1), (''rating'', 2)]"

definition two_cols :: "(string \<times> int) list" where
  "two_cols = [(''user_id'', 0), (''item_id'', 1)]"

text \<open>
  An argsort that keeps equal counts in their order, a reading of \<^verbatim>\<open>float\<close> on
  decimal digits, and two files: the three interactions of the example, and six
  interactions in which item 20 occurs three times, item 30 twice and item 10 once.
\<close>

definition stable_argsort :: argsort where
  "stable_argsort cs = sort_key ((!) cs) [0..<length cs]"

definition dec_float :: "string \<Rightarrow> real option" where
  "dec_float s = map_option real_of_int (dec_int s)"

definition example_lines :: "string list" where
  "example_lines = [''1,10,5'', ''2,10,3'', ''1,20,4'']"

definition popular_lines :: "string list" where
  "popular_lines = [''1,10,5'', ''1,20,4'', ''2,20,3'', ''3,20,2'', ''2,30,5'', ''3,30,1'']"

section \<open>Floating-point facts\<close>

lemma bit_length_le_iff: "bit_length n \<le> k \<longleftrightarrow> n < 2 ^ k"
proof (induction n arbitrary: k rule: bit_length.induct)
  case 1
  then show ?case by simp
next
  case (2 n)
  show ?case
  proof (cases k)
    case 0
    then show ?thesis by simp
  next
    case (Suc j)
    have "bit_length (Suc n) \<le> Suc j \<longleftrightarrow> bit_length (Suc n div 2) \<le> j" by simp
    also have "\<dots> \<longleftrightarrow> Suc n div 2 < 2 ^ j" by (rule "2.IH")
    also have "\<dots> \<longleftrightarrow> Suc n < 2 ^ Suc j" by (simp add: div_less_iff_less_mult mult.commute)
    finally show ?thesis using Suc by simp
  qed
qed

lemma overflows_iff: "overflows x \<longleftrightarrow> 2 ^ 1024 - 2 ^ 970 \<le> \<bar>x\<bar>"
proof -
  let ?y = "\<bar>x\<bar> + \<bar>x\<bar> / (2 ^ 54 - 1)"
  have "overflows x \<longleftrightarrow> \<not> nat \<lfloor>?y\<rfloor> < 2 ^ 1024"
    unfolding overflows_def by (simp only: bit_length_le_iff [symmetric] not_le)
  also have "\<dots> \<longleftrightarrow> (2 ^ 1024 :: int) \<le> \<lfloor>?y\<rfloor>"
    by (simp add: nat_less_iff not_less)
  also have "\<dots> \<longleftrightarrow> 2 ^ 1024 \<le> ?y"
    by (simp add: le_floor_iff)
  also have "\<dots> \<longleftrightarrow> 2 ^ 1024 * (2 ^ 54 - 1) \<le> \<bar>x\<bar> * 2 ^ 54"
  proof -
    have "?y = \<bar>x\<bar> * 2 ^ 54 / (2 ^ 54 - 1)" by (simp add: field_simps)
    then show ?thesis by (simp add: pos_le_divide_eq)
  qed
  also have "\<dots> \<longleftrightarrow> (2 ^ 1024 - 2 ^ 970) * 2 ^ 54 \<le> \<bar>x\<bar> * 2 ^ 54"
  proof -
    have "(2 ^ 1024 :: real) * (2 ^ 54 - 1) = (2 ^ 1024 - 2 ^ 970) * 2 ^ 54"
      by (simp add: algebra_simps flip: power_add)
    then show ?thesis by simp
  qed
  also have "\<dots> \<longleftrightarrow> 2 ^ 1024 - 2 ^ 970 \<le> \<bar>x\<bar>"
    by (simp only: mult_le_cancel_right_pos zero_less_power zero_less_numeral)
  finally show ?thesis .
qed

lemma small_no_overflow: "0 \<le> x \<Longrightarrow> x < 2 ^ 64 \<Longrightarrow> \<not> overflows x"
  by (simp add: overflows_iff)

lemma third_double: "round_double (1 / 3) = third"
  by code_simp

text \<open>
  Line 394 on the doubles that \<^verbatim>\<open>0.7\<close> and \<^verbatim>\<open>0.29\<close> denote: ten items times 0.7 is
  the double 7.0, a hundred items times 0.29 is a double below 29.
\<close>

lemma top_pop_k_examples:
  "top_pop_k 10 (round_double (7 / 10)) = 7 \<and> top_pop_k 100 (round_double (29 / 100)) = 28"
  by code_simp

lemma default_ratio_doubles:
  "map round_double [6 / 10, 2 / 10, 2 / 10] = arg_split_ratio default_args"
  by code_simp

lemma py_sum_default: "py_sum (arg_split_ratio default_args) = Some 1"
  by code_simp

section \<open>Configuration errors\<close>




section \<open>Splitting preserves the entries\<close>

lemma sum_duplicates_distinct:
  assumes "distinct (map fst es)"
  shows "mset (sum_duplicates es) = mset es"
proof -
  have one: "sum_list (map snd (filter (\<lambda>e. fst e = fst x) es)) = snd x" if "x \<in> set es" for x
  proof -
    have "filter (\<lambda>e. fst e = fst x) es = [x]"
      using assms that
    proof (induction es)
      case Nil
      then show ?case by simp
    next
      case (Cons a es)
      show ?case
      proof (cases "a = x")
        case True
        with Cons.prems have "\<forall>e \<in> set es. fst e \<noteq> fst x" by (auto simp: image_iff)
        then have "filter (\<lambda>e. fst e = fst x) es = []" by (simp add: filter_empty_conv)
        with True show ?thesis by simp
      next
        case False
        with Cons.prems have "x \<in> set es" "fst a \<noteq> fst x" by (auto simp: image_iff)
        with Cons show ?thesis by simp
      qed
    qed
    then show ?thesis by simp
  qed
  let ?f = "\<lambda>k. (k, sum_list (map snd (filter (\<lambda>e. fst e = k) es)))"
  have "mset (sum_duplicates es) = image_mset ?f (mset (sort (remdups (map fst es))))"
    by (simp add: sum_duplicates_def)
  also have "\<dots> = image_mset ?f (mset (map fst es))"
    using assms by (simp add: distinct_remdups_id)
  also have "\<dots> = image_mset (\<lambda>x. ?f (fst x)) (mset es)"
    by (simp add: image_mset.compositionality comp_def)
  also have "\<dots> = image_mset (\<lambda>x. x) (mset es)"
    by (rule image_mset_cong) (simp add: one)
  finally show ?thesis by simp
qed

lemma select_eq_distinct:
  "distinct (map fst es) \<Longrightarrow> distinct (map fst (select_eq l choice es))"
proof (induction es arbitrary: choice)
  case Nil
  then show ?case by (simp add: select_eq_def)
next
  case (Cons e es)
  have sub: "set (select_eq l c es) \<subseteq> set es" for c
    by (auto simp: select_eq_def dest: set_zip_rightD)
  show ?case
  proof (cases choice)
    case Nil
    then show ?thesis by (simp add: select_eq_def)
  next
    case (Cons c cs)
    with Cons.prems Cons.IH [of cs] sub [of cs] show ?thesis
      by (auto simp: select_eq_def)
  qed
qed

lemma select_three:
  "length choice = length es \<Longrightarrow>
   mset (select_eq Train choice es) + mset (select_eq Test choice es)
     + mset (select_eq Valid choice es) = mset es"
proof (induction choice es rule: list_induct2)
  case Nil
  then show ?case by (simp add: select_eq_def)
next
  case (Cons c cs e es)
  then show ?case by (cases c) (simp_all add: select_eq_def)
qed


lemma np_random_choice_length:
  "np_random_choice g a p n = (Inr choice, g') \<Longrightarrow> length choice = n"
  by (auto simp: np_random_choice_def split: if_splits)

lemma np_random_choice_weights_ok:
  assumes "length ratio = length a" "a \<noteq> []" "exact_sum ratio = 1" "\<forall>p \<in> set ratio. 0 \<le> p"
  shows "\<exists>choice g'. np_random_choice g a (Some ratio) n = (Inr choice, g')"
  using assms by (auto simp: np_random_choice_def atol_def)

lemma tocsr_distinct:
  "distinct (map fst es) \<Longrightarrow>
   mset (csr_entries (tocsr \<lparr> shape = sh, entries = es \<rparr>)) = mset es"
  by (simp add: tocsr_def sum_duplicates_distinct)

text \<open>
  C1 (as amended). For every coordinate matrix \<open>M\<close> that stores no coordinate twice and
  every ratio of three non-negative numbers that sum to 1, \<^verbatim>\<open>split_urm\<close> with
  \<^verbatim>\<open>min_ratings = 1\<close> returns three matrices of the shape of \<open>M\<close>, whose entry counts
  add up to \<open>nnz M\<close> and whose entries together are, as a multiset, the entries of \<open>M\<close>,
  whatever the generator draws.
\<close>

theorem split_urm_partition:
  assumes "length ratio = 3" and "exact_sum ratio = 1" and "\<forall>p \<in> set ratio. 0 \<le> p"
    and "distinct (map fst (entries M))"
  shows "\<exists>tr te va g'.
           split_urm g M ratio 1 verb = (Inr (tr, te, va), g')
         \<and> csr_shape tr = shape M \<and> csr_shape te = shape M \<and> csr_shape va = shape M
         \<and> csr_nnz tr + csr_nnz te + csr_nnz va = nnz M
         \<and> mset (csr_entries tr) + mset (csr_entries te) + mset (csr_entries va)
             = mset (entries M)"
proof -
  let ?es = "entries M"
  from np_random_choice_weights_ok [of ratio "[Train, Test, Valid]" g "length ?es"] assms
  obtain choice g' where
    ch: "np_random_choice g [Train, Test, Valid] (Some ratio) (length ?es) = (Inr choice, g')"
    by auto
  then have len: "length choice = length ?es"
    by (rule np_random_choice_length)
  let ?tr = "tocsr \<lparr> shape = shape M, entries = select_eq Train choice ?es \<rparr>"
  let ?te = "tocsr \<lparr> shape = shape M, entries = select_eq Test choice ?es \<rparr>"
  let ?va = "tocsr \<lparr> shape = shape M, entries = select_eq Valid choice ?es \<rparr>"
  have run: "split_urm g M ratio 1 verb = (Inr (?tr, ?te, ?va), g')"
    using ch by (simp add: split_urm_def)
  have shapes: "csr_shape ?tr = shape M" "csr_shape ?te = shape M" "csr_shape ?va = shape M"
    by (simp_all add: tocsr_def)
  have ms: "mset (csr_entries ?tr) + mset (csr_entries ?te) + mset (csr_entries ?va) = mset ?es"
    using assms(4) len by (simp add: tocsr_distinct select_eq_distinct select_three)
  from arg_cong [OF ms, of size]
  have cnt: "csr_nnz ?tr + csr_nnz ?te + csr_nnz ?va = nnz M"
    by (simp add: csr_nnz_def nnz_def)
  from run shapes ms cnt show ?thesis by blast
qed

theorem split_urm_partition_witness:
  "\<exists>tr te va g'.
      split_urm count_rng example_urm [6 / 10, 2 / 10, 2 / 10] 1 True = (Inr (tr, te, va), g')
    \<and> csr_shape tr = shape example_urm \<and> csr_shape te = shape example_urm
    \<and> csr_shape va = shape example_urm
    \<and> csr_nnz tr + csr_nnz te + csr_nnz va = nnz example_urm
    \<and> mset (csr_entries tr) + mset (csr_entries te) + mset (csr_entries va)
         = mset (entries example_urm)"
proof -
  have 1: "length [6 / 10, 2 / 10, 2 / 10 :: real] = 3" by simp
  have 2: "exact_sum [6 / 10, 2 / 10, 2 / 10] = 1" by (simp add: exact_sum_def)
  have 3: "\<forall>p \<in> set [6 / 10, 2 / 10, 2 / 10 :: real]. 0 \<le> p" by simp
  have 4: "distinct (map fst (entries example_urm))" by (simp add: example_urm_def)
  from split_urm_partition [OF 1 2 3 4] show ?thesis .
qed

text \<open>
  C1 as stated fails on a matrix that stores a coordinate twice: when both entries draw
  the same label, \<^verbatim>\<open>tocsr()\<close> adds them into one entry, and the three results hold one
  entry where the input holds two.
\<close>

theorem split_urm_duplicates_counterexample:
  "fst (split_urm zero_rng dup_urm [1, 0, 0] 1 False)
     = Inr (\<lparr> csr_shape = (1, 1), csr_entries = [((0, 0), 2)] \<rparr>,
            \<lparr> csr_shape = (1, 1), csr_entries = [] \<rparr>,
            \<lparr> csr_shape = (1, 1), csr_entries = [] \<rparr>)
   \<and> nnz dup_urm = 2"
  by code_simp


section \<open>Cross-validation folds partition the entries\<close>

lemma select_ne_distinct:
  "distinct (map fst es) \<Longrightarrow> distinct (map fst (select_ne l choice es))"
proof (induction es arbitrary: choice)
  case Nil
  then show ?case by (simp add: select_ne_def)
next
  case (Cons e es)
  have sub: "set (select_ne l c es) \<subseteq> set es" for c
    by (auto simp: select_ne_def dest: set_zip_rightD)
  show ?case
  proof (cases choice)
    case Nil
    then show ?thesis by (simp add: select_ne_def)
  next
    case (Cons c cs)
    with Cons.prems Cons.IH [of cs] sub [of cs] show ?thesis
      by (auto simp: select_ne_def)
  qed
qed

lemma select_two:
  "length choice = length es \<Longrightarrow>
   mset (select_ne l choice es) + mset (select_eq l choice es) = mset es"
  by (induction choice es rule: list_induct2) (simp_all add: select_eq_def select_ne_def)

lemma one_hot_sum:
  "(\<Sum>i\<leftarrow>[0..<k]. if c = i then 1 else 0) = (if c < k then 1 else (0::nat))"
  by (induction k) auto

lemma select_eq_folds_total:
  "length choice = length es \<Longrightarrow> \<forall>c \<in> set choice. c < k \<Longrightarrow>
   (\<Sum>i\<leftarrow>[0..<k]. length (select_eq i choice es)) = length es"
proof (induction choice es rule: list_induct2)
  case Nil
  then show ?case by (simp add: select_eq_def)
next
  case (Cons c cs e es)
  have "(\<Sum>i\<leftarrow>[0..<k]. length (select_eq i (c # cs) (e # es)))
      = (\<Sum>i\<leftarrow>[0..<k]. (if c = i then 1 else 0) + length (select_eq i cs es))"
    by (rule arg_cong [where f = sum_list]) (simp add: select_eq_def)
  also have "\<dots> = (\<Sum>i\<leftarrow>[0..<k]. if c = i then 1 else 0) + (\<Sum>i\<leftarrow>[0..<k]. length (select_eq i cs es))"
    by (simp add: sum_list_addf)
  also have "\<dots> = 1 + length es"
    using Cons by (simp add: one_hot_sum)
  finally show ?case by simp
qed

lemma np_random_choice_range:
  assumes "0 < k"
  shows "\<exists>choice g'. np_random_choice g [0..<k] None n = (Inr choice, g')
           \<and> length choice = n \<and> (\<forall>c \<in> set choice. c < k)"
  using assms by (auto simp: np_random_choice_def)


lemma disjoint_of_mset_sum:
  assumes "mset xs + mset ys = mset zs" "distinct zs"
  shows "set xs \<inter> set ys = {}"
proof (rule ccontr)
  assume "set xs \<inter> set ys \<noteq> {}"
  then obtain x where "x \<in> set xs" "x \<in> set ys" by auto
  then have "1 \<le> count (mset xs) x" "1 \<le> count (mset ys) x" by simp_all
  then have "2 \<le> count (mset xs) x + count (mset ys) x" by arith
  then have "2 \<le> count (mset xs + mset ys) x" by (simp only: count_union)
  with assms(1) have "2 \<le> count (mset zs) x" by (simp only:)
  moreover from assms(2) have "count (mset zs) x \<le> 1"
    by (simp add: distinct_count_atmost_1)
  ultimately show False by simp
qed

text \<open>
  C6 (as amended). For every coordinate matrix \<open>M\<close> that stores no coordinate twice and
  every fold count \<open>k \<ge> 1\<close>, \<^verbatim>\<open>get_CV_folds\<close> yields exactly \<open>k\<close> pairs; in each pair
  both matrices have the shape of \<open>M\<close>, the train and test entries together are the
  entries of \<open>M\<close> as a multiset and no entry is in both; the test entry counts of the
  \<open>k\<close> folds add up to \<open>nnz M\<close>, whatever the generator draws.
\<close>

theorem get_CV_folds_partition:
  assumes "1 \<le> k" and "distinct (map fst (entries M))"
  shows "\<exists>folds g'.
           get_CV_folds g M k = (Inr folds, g')
         \<and> length folds = k
         \<and> (\<forall>p \<in> set folds.
               csr_shape (fst p) = shape M \<and> csr_shape (snd p) = shape M
             \<and> mset (csr_entries (fst p)) + mset (csr_entries (snd p)) = mset (entries M)
             \<and> set (csr_entries (fst p)) \<inter> set (csr_entries (snd p)) = {})
         \<and> (\<Sum>p\<leftarrow>folds. csr_nnz (snd p)) = nnz M"
proof -
  let ?es = "entries M"
  from np_random_choice_range [of k g "length ?es"] assms(1)
  obtain choice g' where
    ch: "np_random_choice g [0..<k] None (length ?es) = (Inr choice, g')"
    and len: "length choice = length ?es" and rng: "\<forall>c \<in> set choice. c < k"
    by auto
  let ?pair = "\<lambda>i. (tocsr \<lparr> shape = shape M, entries = select_ne i choice ?es \<rparr>,
                    tocsr \<lparr> shape = shape M, entries = select_eq i choice ?es \<rparr>)"
  let ?folds = "map ?pair [0..<k]"
  have run: "get_CV_folds g M k = (Inr ?folds, g')"
    using ch by (simp add: get_CV_folds_def)
  have dist: "distinct ?es"
    using assms(2) by (rule distinct_map [THEN iffD1, THEN conjunct1])
  have each: "csr_shape (fst (?pair i)) = shape M \<and> csr_shape (snd (?pair i)) = shape M
             \<and> mset (csr_entries (fst (?pair i))) + mset (csr_entries (snd (?pair i))) = mset ?es
             \<and> set (csr_entries (fst (?pair i))) \<inter> set (csr_entries (snd (?pair i))) = {}" for i
  proof -
    have ms: "mset (csr_entries (fst (?pair i))) + mset (csr_entries (snd (?pair i))) = mset ?es"
      using assms(2) len
      by (simp add: tocsr_distinct select_eq_distinct select_ne_distinct select_two)
    from disjoint_of_mset_sum [OF ms dist] ms show ?thesis
      by (simp add: tocsr_def)
  qed
  have cnt: "csr_nnz (snd (?pair i)) = length (select_eq i choice ?es)" for i
  proof -
    have "mset (csr_entries (snd (?pair i))) = mset (select_eq i choice ?es)"
      using assms(2) by (simp add: tocsr_distinct select_eq_distinct)
    from arg_cong [OF this, of size] show ?thesis by (simp add: csr_nnz_def)
  qed
  have total: "(\<Sum>p\<leftarrow>?folds. csr_nnz (snd p)) = nnz M"
    using select_eq_folds_total [OF len rng]
    by (simp add: comp_def cnt nnz_def del: snd_conv)
  have all: "\<forall>p \<in> set ?folds.
               csr_shape (fst p) = shape M \<and> csr_shape (snd p) = shape M
             \<and> mset (csr_entries (fst p)) + mset (csr_entries (snd p)) = mset ?es
             \<and> set (csr_entries (fst p)) \<inter> set (csr_entries (snd p)) = {}"
    using each by (auto simp del: fst_conv snd_conv)
  have "length ?folds = k" by simp
  with run all total show ?thesis by blast
qed

theorem get_CV_folds_partition_witness:
  "\<exists>folds g'.
      get_CV_folds count_rng example_urm 2 = (Inr folds, g')
    \<and> length folds = 2
    \<and> (\<Sum>p\<leftarrow>folds. csr_nnz (snd p)) = nnz example_urm"
proof -
  have 1: "1 \<le> (2::nat)" by simp
  have 2: "distinct (map fst (entries example_urm))" by (simp add: example_urm_def)
  from get_CV_folds_partition [OF 1 2, of count_rng] show ?thesis by blast
qed

text \<open>
  C6 as stated fails on a matrix that stores a coordinate twice: with one fold both
  entries are test entries, \<^verbatim>\<open>tocsr()\<close> adds them into one, and the test matrix holds
  one entry where the input holds two.
\<close>

theorem get_CV_folds_duplicates_counterexample:
  "fst (get_CV_folds zero_rng dup_urm 1)
     = Inr [(\<lparr> csr_shape = (1, 1), csr_entries = [] \<rparr>,
             \<lparr> csr_shape = (1, 1), csr_entries = [((0, 0), 2)] \<rparr>)]
   \<and> nnz dup_urm = 2"
  by code_simp


section \<open>The seed\<close>

lemma split_stage_seed_irrelevant:
  "split_stage (a\<lparr>arg_seed := s\<rparr>) g URM = split_stage a g URM"
  by (simp add: split_stage_def init_def Let_def)

text \<open>
  C2. Two runs with the same configuration, seed included, on the same matrix give different
  splits when the generator of the process is in different states: the constructor stores
  the seed and nothing seeds the generator with it.
\<close>

theorem split_stage_same_seed_differs:
  "arg_seed default_args = 1234
   \<and> split_stage default_args zero_rng example_urm
       = Inr (\<lparr> csr_shape = (2, 2), csr_entries = [((0, 0), 5), ((0, 1), 4), ((1, 0), 3)] \<rparr>,
              \<lparr> csr_shape = (2, 2), csr_entries = [] \<rparr>,
              \<lparr> csr_shape = (2, 2), csr_entries = [] \<rparr>)
   \<and> split_stage default_args count_rng example_urm
       = Inr (\<lparr> csr_shape = (2, 2), csr_entries = [((0, 0), 5)] \<rparr>,
              \<lparr> csr_shape = (2, 2), csr_entries = [((1, 0), 3)] \<rparr>,
              \<lparr> csr_shape = (2, 2), csr_entries = [((0, 1), 4)] \<rparr>)"
  by code_simp

section \<open>The minimum number of ratings\<close>

text \<open>
  C3. With \<^verbatim>\<open>min_ratings = 2\<close> the pre-filter keeps user 0, who has one rating, and
  removes user 1, who has two: line 481 compares the sum of a user's ratings with the
  threshold, not their number. With \<^verbatim>\<open>verbose\<close> set the call raises before it filters.
\<close>

theorem split_urm_min_ratings_uses_sum:
  "row_count (entries ratings_urm) 0 = 1 \<and> row_count (entries ratings_urm) 1 = 2
   \<and> fst (split_urm zero_rng ratings_urm [1, 0, 0] 2 False)
       = Inr (\<lparr> csr_shape = (2, 2), csr_entries = [((0, 0), 5)] \<rparr>,
              \<lparr> csr_shape = (2, 2), csr_entries = [] \<rparr>,
              \<lparr> csr_shape = (2, 2), csr_entries = [] \<rparr>)
   \<and> fst (split_urm zero_rng ratings_urm [1, 0, 0] 2 True) = Inl TypeError"
  by code_simp


section \<open>The archive after a failed extraction\<close>

text \<open>
  C9 (as amended). When the download succeeds and the extraction fails, because the file
  is no archive or because the archive lacks the data file, the error propagates and the
  file system is as the download left it: the downloaded archive is still on disk. When
  the extraction succeeds, the archive is removed and the data file is on disk (unless
  it was extracted to the path of the archive itself).
\<close>

theorem get_ratings_file_keeps_archive:
  "(status_code resp = 200
      \<and> (case body resp of Plain b \<Rightarrow> True | Archive ms \<Rightarrow> map_of ms data_file = None)
    \<longrightarrow> (\<exists>e. get_ratings_file fs resp zp data_file = (Inl e, fs(zp \<mapsto> body resp))))
   \<and> (status_code resp = 200
      \<and> (case body resp of Plain b \<Rightarrow> False | Archive ms \<Rightarrow> map_of ms data_file \<noteq> None)
    \<longrightarrow> (\<exists>fs'. get_ratings_file fs resp zp data_file
                  = (Inr (path_join (dirname zp) data_file), fs')
             \<and> fs' zp = None
             \<and> (path_join (dirname zp) data_file \<noteq> zp
                  \<longrightarrow> fs' (path_join (dirname zp) data_file) \<noteq> None)))"
  by (cases "body resp")
     (auto simp: get_ratings_file_def download_url_def Let_def split: option.splits)

theorem get_ratings_file_keeps_archive_witness:
  "(\<exists>e. get_ratings_file Map.empty corrupt_response ''/data/ml/ml.zip'' ''ratings.csv''
          = (Inl e, [''/data/ml/ml.zip'' \<mapsto> body corrupt_response]))
   \<and> (\<exists>fs'. get_ratings_file Map.empty good_response ''/data/ml/ml.zip'' ''ratings.csv''
              = (Inr ''/data/ml/ratings.csv'', fs')
         \<and> fs' ''/data/ml/ratings.csv'' \<noteq> None
         \<and> fs' ''/data/ml/ml.zip'' = None)"
  using get_ratings_file_keeps_archive
          [of corrupt_response "''ratings.csv''" Map.empty "''/data/ml/ml.zip''"]
        get_ratings_file_keeps_archive
          [of good_response "''ratings.csv''" Map.empty "''/data/ml/ml.zip''"]
  by (auto simp: corrupt_response_def good_response_def dirname_def path_join_def)

text \<open>
  C9 as stated fails: after the extraction of a download that is no archive has failed,
  the downloaded file is still on disk.
\<close>

theorem get_ratings_file_counterexample:
  "fst (get_ratings_file Map.empty corrupt_response ''/data/ml/ml.zip'' ''ratings.csv'')
     = Inl BadZipFile
   \<and> snd (get_ratings_file Map.empty corrupt_response ''/data/ml/ml.zip'' ''ratings.csv'')
         ''/data/ml/ml.zip''
     = Some (Plain ''not a zip'')"
  by (simp add: get_ratings_file_def download_url_def corrupt_response_def)


section \<open>A column mapping without ratings\<close>

lemma parse_line_no_rating:
  "map_of cols_of ''rating'' = None \<Longrightarrow> \<exists>e. parse_line p_int p_float cols_of delim line = Inl e"
  by (auto simp: parse_line_def float_field_def dict_get_def bind_err_def split: sum.splits)

text \<open>
  C10 (as amended). A constructor given a column mapping with fewer than three keys (and a
  valid split ratio) returns an object with \<^verbatim>\<open>implicit\<close> set, without raising; and for
  every column mapping without the key \<^verbatim>\<open>rating\<close> and every file with at least one
  line after the header that is skipped, \<^verbatim>\<open>read_interactions\<close> raises and returns no
  sequences.
\<close>

theorem two_column_mapping_unusable:
  "(dict_len (arg_use_cols a) < 3 \<and> py_sum (arg_split_ratio a) = Some 1
      \<and> length (arg_split_ratio a) = 3
    \<longrightarrow> (\<exists>r. init a fs = (Inr r, fs) \<and> implicit r))
   \<and> (map_of cols_of ''rating'' = None \<and> (if hdr then drop 1 lines else lines) \<noteq> []
    \<longrightarrow> (\<exists>e. read_interactions p_int p_float lines cols_of delim hdr = Inl e))"
proof -
  have a: "\<exists>r. init a fs = (Inr r, fs) \<and> implicit r"
    if "dict_len (arg_use_cols a) < 3" "py_sum (arg_split_ratio a) = Some 1"
       "length (arg_split_ratio a) = 3"
    using that by (simp add: init_def)
  have b: "\<exists>e. read_interactions p_int p_float lines cols_of delim hdr = Inl e"
    if none: "map_of cols_of ''rating'' = None"
      and ne: "(if hdr then drop 1 lines else lines) \<noteq> []"
  proof -
    from ne obtain l ls where ls: "(if hdr then drop 1 lines else lines) = l # ls"
      by (cases "if hdr then drop 1 lines else lines") auto
    from parse_line_no_rating [OF none] obtain e where "parse_line p_int p_float cols_of delim l = Inl e"
      by blast
    then show ?thesis
      unfolding read_interactions_def ls by simp
  qed
  from a b show ?thesis by blast
qed

theorem two_column_mapping_unusable_witness:
  "(\<exists>r. init (default_args\<lparr>arg_use_cols := two_cols\<rparr>) Map.empty = (Inr r, Map.empty) \<and> implicit r)
   \<and> (\<exists>e. read_interactions dec_int Map.empty [''1,10''] two_cols '','' False = Inl e)"
proof -
  have 1: "dict_len (arg_use_cols (default_args\<lparr>arg_use_cols := two_cols\<rparr>)) < 3
      \<and> py_sum (arg_split_ratio (default_args\<lparr>arg_use_cols := two_cols\<rparr>)) = Some 1
      \<and> length (arg_split_ratio (default_args\<lparr>arg_use_cols := two_cols\<rparr>)) = 3"
    using py_sum_default by (simp add: dict_len_def two_cols_def default_args_def)
  have 2: "map_of two_cols ''rating'' = None \<and> (if False then drop 1 [''1,10''] else [''1,10'']) \<noteq> []"
    by (simp add: two_cols_def)
  from two_column_mapping_unusable
         [of "default_args\<lparr>arg_use_cols := two_cols\<rparr>" Map.empty two_cols False "[''1,10'']"
             dec_int Map.empty "'',''"] 1 2
  show ?thesis by blast
qed

text \<open>
  C10 as stated fails on a file that is not empty but holds the header line only: with
  \<^verbatim>\<open>header=True\<close> the loop body never runs and three empty sequences are returned.
\<close>

theorem read_interactions_header_only_counterexample:
  "map_of two_cols ''rating'' = None
   \<and> read_interactions dec_int Map.empty [''user,item''] two_cols '','' True = Inr ([], [], [])"
  by code_simp


section \<open>Properties of the matrix builder\<close>

lemma np_unique_props:
  "distinct (np_unique xs)" "sorted (np_unique xs)" "set (np_unique xs) = set xs"
  by (simp_all add: np_unique_def)

lemma index_map_distinct:
  assumes "distinct ks"
  shows "index_map ks = map_of (zip ks [0..<length ks])"
proof -
  have "distinct (map fst (zip ks [0..<length ks]))" using assms by simp
  then show ?thesis
    unfolding index_map_def by (simp add: map_of_inject_set distinct_rev rev_map [symmetric])
qed

lemma index_map_dom: "dom (index_map ks) = set ks"
  by (simp add: index_map_def dom_map_of_conv_image_fst flip: set_map)

lemma index_map_nth:
  assumes "distinct ks" "i < length ks"
  shows "index_map ks (ks ! i) = Some i"
proof -
  have "(ks ! i, i) \<in> set (zip ks [0..<length ks])"
    using assms(2) by (auto simp: set_zip)
  moreover have "distinct (map fst (zip ks [0..<length ks]))" using assms(1) by simp
  ultimately show ?thesis
    by (simp add: index_map_distinct [OF assms(1)])
qed

lemma index_map_ran:
  assumes "distinct ks"
  shows "ran (index_map ks) = {0..<length ks}"
proof -
  have "ran (map_of (zip ks [0..<length ks])) = set [0..<length ks]"
    using assms by (intro ran_map_of_zip) simp_all
  then show ?thesis by (simp add: index_map_distinct [OF assms])
qed

lemma index_map_inj:
  assumes "distinct ks"
  shows "inj_on (index_map ks) (set ks)"
proof (rule inj_onI)
  fix x y assume "x \<in> set ks" "y \<in> set ks" and eq: "index_map ks x = index_map ks y"
  then obtain i j where ij: "i < length ks" "x = ks ! i" "j < length ks" "y = ks ! j"
    by (auto simp: in_set_conv_nth)
  with eq assms have "i = j" by (simp add: index_map_nth)
  with ij show "x = y" by simp
qed

lemma by_popularity_mset:
  assumes "is_argsort asort"
  shows "mset (by_popularity asort cols) = mset (np_unique (map uint cols))"
proof -
  let ?u = "np_unique (map uint cols)"
  let ?c = "unique_counts (map uint cols)"
  have len: "length ?c = length ?u" by (simp add: unique_counts_def)
  from assms have "mset (asort ?c) = mset [0..<length ?c]"
    by (simp add: is_argsort_def)
  then have "mset (rev (asort ?c)) = mset [0..<length ?u]" by (simp add: len)
  then have "image_mset ((!) ?u) (mset (rev (asort ?c))) = image_mset ((!) ?u) (mset [0..<length ?u])"
    by (rule arg_cong)
  then have "mset (map ((!) ?u) (rev (asort ?c))) = mset (map ((!) ?u) [0..<length ?u])"
    by (simp only: mset_map)
  then show ?thesis by (simp only: by_popularity_def map_nth)
qed

lemma by_popularity_props:
  assumes "is_argsort asort"
  shows "distinct (by_popularity asort cols)"
    and "set (by_popularity asort cols) = set (map uint cols)"
    and "length (by_popularity asort cols) = length (np_unique (map uint cols))"
proof -
  note m = by_popularity_mset [OF assms, of cols]
  from mset_eq_imp_distinct_iff [OF m] show "distinct (by_popularity asort cols)"
    by (simp add: np_unique_props)
  from mset_eq_setD [OF m] show "set (by_popularity asort cols) = set (map uint cols)"
    by (simp only: np_unique_props)
  from mset_eq_length [OF m] show "length (by_popularity asort cols) = length (np_unique (map uint cols))" .
qed

lemma stable_argsort_ok: "is_argsort stable_argsort"
  by (simp add: is_argsort_def stable_argsort_def)

lemma read_loop_lengths:
  "read_loop bd ls rows cols data = Inr (rows', cols', data') \<Longrightarrow>
   length rows = length cols \<Longrightarrow> length cols = length data \<Longrightarrow>
   length rows' = length cols' \<and> length cols' = length data'"
  by (induction ls arbitrary: rows cols data) (auto split: sum.splits)

lemma read_interactions_lengths:
  "read_interactions p_int p_float lines cols_of delim hdr = Inr (rows, cols, data) \<Longrightarrow>
   length rows = length cols \<and> length cols = length data"
  unfolding read_interactions_def by (drule read_loop_lengths) simp_all

lemma coo_matrix_of_Inr:
  assumes "coo_matrix_of data coo_rows coo_cols sh = Inr m"
  shows "shape m = sh"
    and "entries m = zip (zip (map the coo_rows) (map the coo_cols)) data"
    and "None \<notin> set coo_rows" and "None \<notin> set coo_cols"
    and "length coo_rows = length data" and "length coo_cols = length data"
  using assms
  by (auto simp: coo_matrix_of_def list_ex_iff split: if_splits option.splits)

lemma build_URM_from_Inr:
  assumes "build_URM_from asort imp r rows cols data = Inr b"
  defines "f \<equiv> remove_top asort r rows cols (if imp then replicate (length data) 1 else data)"
  shows "row_to_user b = index_map (np_unique (f_rows f))"
    and "col_to_item b = index_map (f_unique_items f)"
    and "shape (urm b) = (length (np_unique (f_rows f)), length (f_unique_items f))"
    and "entries (urm b) = zip (zip (map (the \<circ> row_to_user b) (f_rows f))
                                    (map (the \<circ> col_to_item b) (f_cols f))) (f_data f)"
    and "\<forall>x \<in> set (f_cols f). col_to_item b x \<noteq> None"
    and "\<forall>x \<in> set (f_rows f). row_to_user b x \<noteq> None"
proof -
  let ?r2u = "index_map (np_unique (f_rows f))"
  let ?c2i = "index_map (f_unique_items f)"
  let ?sh = "(length (np_unique (f_rows f)), length (f_unique_items f))"
  from assms(1) obtain m where
    m: "coo_matrix_of (f_data f) (map ?r2u (f_rows f)) (map ?c2i (f_cols f)) ?sh = Inr m"
    and b: "b = \<lparr> row_to_user = ?r2u, col_to_item = ?c2i, urm = m \<rparr>"
    unfolding build_URM_from_def f_def Let_def
    by (auto split: sum.splits if_splits)
  note facts = coo_matrix_of_Inr [OF m]
  from b show "row_to_user b = ?r2u" "col_to_item b = ?c2i" by simp_all
  from b facts(1) show "shape (urm b) = ?sh" by simp
  from b facts(2) show "entries (urm b) = zip (zip (map (the \<circ> row_to_user b) (f_rows f))
                                    (map (the \<circ> col_to_item b) (f_cols f))) (f_data f)"
    by simp
  from b facts(4) show "\<forall>x \<in> set (f_cols f). col_to_item b x \<noteq> None"
    by (auto simp: image_iff) (metis not_None_eq)
  from b facts(3) show "\<forall>x \<in> set (f_rows f). row_to_user b x \<noteq> None"
    by (auto simp: image_iff) (metis not_None_eq)
qed

lemma mask_select_subset: "set (mask_select bs xs) \<subseteq> set xs"
  by (auto simp: mask_select_def dest: set_zip_rightD)

lemma remove_top_data_subset: "set (f_data (remove_top asort r rows cols data)) \<subseteq> set data"
  using mask_select_subset [of _ data] by (simp add: remove_top_def Let_def)

lemma build_URM_Inr:
  assumes "build_URM asort p_int p_float lines cols_of delim hdr imp r = Inr b"
  obtains rows cols data where
    "read_interactions p_int p_float lines cols_of delim hdr = Inr (rows, cols, data)"
    "build_URM_from asort imp r rows cols data = Inr b"
  using assms by (auto simp: build_URM_def split: sum.splits)

lemma lock_step:
  "length xs = length ys \<Longrightarrow> length ys = length zs \<Longrightarrow>
   zip (zip (map a (mask_select (map q ys) (map f xs)))
            (map c (mask_select (map q ys) (map h ys))))
       (mask_select (map q ys) zs)
   = map (\<lambda>(x, y, z). ((a (f x), c (h y)), z)) (filter (\<lambda>(x, y, z). q y) (zip xs (zip ys zs)))"
  by (induction xs ys zs rule: list_induct3) (simp_all add: mask_select_def)

lemma zip_zip_mid: "e \<in> set (zip (zip as bs) ds) \<Longrightarrow> snd (fst e) \<in> set bs"
  by (metis prod.collapse set_zip_leftD set_zip_rightD)

lemma zip_zip_mid3: "t \<in> set (zip as (zip bs ds)) \<Longrightarrow> fst (snd t) \<in> set bs"
  by (metis prod.collapse set_zip_leftD set_zip_rightD)

lemma index_map_dense: "distinct ks \<Longrightarrow> dense_index (index_map ks) ks"
  by (simp add: dense_index_def index_map_dom index_map_ran index_map_inj index_map_nth)

lemma remove_top_items:
  "f_unique_items (remove_top asort r rows cols data)
     = (if 0 < r then drop (top_pop_k (length (np_unique (map uint cols))) r)
                         (by_popularity asort cols)
        else np_unique (map uint cols))"
  by (simp add: remove_top_def Let_def)

lemma mask_select_length:
  "length xs = length ys \<Longrightarrow> length (mask_select bs xs) = length (mask_select bs ys)"
proof (induction xs ys arbitrary: bs rule: list_induct2)
  case Nil
  then show ?case by (simp add: mask_select_def)
next
  case (Cons x xs y ys)
  then show ?case by (cases bs) (auto simp: mask_select_def)
qed

lemma mask_select_isin:
  "set (mask_select (np_isin xs ys) xs) \<subseteq> set ys"
  by (induction xs) (auto simp: mask_select_def np_isin_def)

lemma coo_matrix_of_ok:
  assumes "length coo_rows = length data" "length coo_cols = length data"
    and "\<forall>i \<in> set coo_rows. \<exists>j < fst sh. i = Some j"
    and "\<forall>i \<in> set coo_cols. \<exists>j < snd sh. i = Some j"
  shows "\<exists>m. coo_matrix_of data coo_rows coo_cols sh = Inr m"
  using assms by (fastforce simp: coo_matrix_of_def list_ex_iff split: option.splits)

lemma dense_index_lookup:
  assumes "dense_index m ks" "x \<in> set ks"
  shows "\<exists>j < length ks. m x = Some j"
proof -
  from assms(2) obtain i where "i < length ks" "x = ks ! i"
    by (auto simp: in_set_conv_nth)
  with assms(1) show ?thesis by (auto simp: dense_index_def)
qed

text \<open>
  The builder returns a matrix for all arrays of one length, as the parser gives them,
  when no fraction is removed, and also when a fraction is removed, the product of line
  394 is finite and no item id has its top bit set. An item id from \<open>2^31\<close> on reads as a negative number in the signed
  view of line 398 and is then no key of \<^verbatim>\<open>col_to_item\<close>.
\<close>

lemma build_URM_from_succeeds:
  assumes srt: "is_argsort asort"
    and len: "length rows = length cols" "length cols = length data"
    and small: "0 < r \<longrightarrow> (\<forall>c \<in> set cols. sint c = uint c)"
    and finite: "0 < r \<longrightarrow> \<not> overflows (real (length (np_unique (map uint cols))) * r)"
  shows "\<exists>b. build_URM_from asort imp r rows cols data = Inr b"
proof -
  let ?data1 = "if imp then replicate (length data) 1 else data"
  let ?f = "remove_top asort r rows cols ?data1"
  let ?users = "np_unique (f_rows ?f)"
  let ?items = "f_unique_items ?f"
  let ?sh = "(length ?users, length ?items)"
  have len1: "length cols = length ?data1" using len by simp
  have di: "distinct ?items"
    using by_popularity_props(1) [OF srt, of cols]
    by (simp add: remove_top_items np_unique_props)
  have lens: "length (f_rows ?f) = length (f_data ?f)" "length (f_cols ?f) = length (f_data ?f)"
    using len len1 mask_select_length [of "map sint rows" ?data1] mask_select_length [of "map sint cols" ?data1]
    by (simp_all add: remove_top_def Let_def)
  have cols_in: "set (f_cols ?f) \<subseteq> set ?items"
  proof (cases "0 < r")
    case True
    with small have "map sint cols = map uint cols" by simp
    moreover from True
    have "f_cols ?f = mask_select (np_isin (map uint cols) ?items) (map sint cols)"
      by (simp add: remove_top_def Let_def)
    ultimately have "f_cols ?f = mask_select (np_isin (map uint cols) ?items) (map uint cols)"
      by (simp only:)
    then show ?thesis
      by (simp only: mask_select_isin)
  next
    case False
    then show ?thesis by (simp add: remove_top_def np_unique_props)
  qed
  have rows_ok: "\<forall>i \<in> set (map (index_map ?users) (f_rows ?f)). \<exists>j < fst ?sh. i = Some j"
    using dense_index_lookup [OF index_map_dense [of ?users]]
    by (auto simp: np_unique_props)
  have cols_ok: "\<forall>i \<in> set (map (index_map ?items) (f_cols ?f)). \<exists>j < snd ?sh. i = Some j"
    using dense_index_lookup [OF index_map_dense [OF di]] cols_in
    by auto
  from coo_matrix_of_ok [OF _ _ rows_ok cols_ok] lens
  obtain m where "coo_matrix_of (f_data ?f) (map (index_map ?users) (f_rows ?f))
                    (map (index_map ?items) (f_cols ?f)) ?sh = Inr m"
    by auto
  with finite show ?thesis
    by (simp add: build_URM_from_def Let_def)
qed

text \<open>
  The example of three interactions builds the matrix of shape \<open>(2, 2)\<close> with the
  entries \<open>(0, 0, 5)\<close>, \<open>(1, 0, 3)\<close>, \<open>(0, 1, 4)\<close>. An item id with its top bit set
  makes the build fail once a fraction of the items is removed, and not otherwise.
\<close>

lemma build_URM_example:
  "map_sum id urm
     (build_URM stable_argsort dec_int dec_float example_lines three_cols '','' False False 0)
   = Inr example_urm"
  by code_simp

lemma build_URM_from_top_bit:
  "map_sum id urm (build_URM_from stable_argsort False (1 / 2) [1] [2147483648] [5])
     = Inl ValueError
   \<and> map_sum id urm (build_URM_from stable_argsort False 0 [1] [2147483648] [5])
     = Inr \<lparr> shape = (1, 1), entries = [((0, 0), 5)] \<rparr>"
  by code_simp

text \<open>
  C7. For every file and every rating values, every value stored in the matrix that
  \<^verbatim>\<open>build_URM\<close> returns with \<^verbatim>\<open>implicit=True\<close> is 1.
\<close>

theorem build_URM_implicit_ones:
  assumes "build_URM asort p_int p_float lines cols_of delim hdr True r = Inr b"
  shows "\<forall>e \<in> set (entries (urm b)). snd e = 1"
proof
  fix e assume e: "e \<in> set (entries (urm b))"
  from assms obtain rows cols data where
    bf: "build_URM_from asort True r rows cols data = Inr b"
    by (rule build_URM_Inr)
  let ?f = "remove_top asort r rows cols (replicate (length data) 1)"
  from build_URM_from_Inr(4) [OF bf] e have "snd e \<in> set (f_data ?f)"
    by (cases e) (auto dest: set_zip_rightD)
  with remove_top_data_subset [of asort r rows cols "replicate (length data) 1"]
  show "snd e = 1" by auto
qed

theorem build_URM_implicit_ones_witness:
  "\<exists>b. build_URM stable_argsort dec_int dec_float popular_lines three_cols '','' False True (1 / 2)
          = Inr b
       \<and> length (entries (urm b)) = 3 \<and> snd ` set (entries (urm b)) \<subseteq> {1}"
proof -
  have ev: "map_sum id (\<lambda>b. length (entries (urm b)))
          (build_URM stable_argsort dec_int dec_float popular_lines three_cols '','' False True (1 / 2))
        = Inr 3"
    by code_simp
  then obtain b where b:
    "build_URM stable_argsort dec_int dec_float popular_lines three_cols '','' False True (1 / 2) = Inr b"
    and len: "length (entries (urm b)) = 3"
    by (cases "build_URM stable_argsort dec_int dec_float popular_lines three_cols '','' False True (1 / 2)")
       auto
  from build_URM_implicit_ones [OF b] have "snd ` set (entries (urm b)) \<subseteq> {1}"
    by auto
  with b len show ?thesis by (intro exI conjI)
qed

lemma sint_small: "uint (w :: 32 word) < 2 ^ 31 \<Longrightarrow> sint w = uint w"
proof -
  assume lt: "uint w < 2 ^ 31"
  have ge: "- (2 ^ 31) \<le> uint w"
    by (rule order_trans [of _ 0]) simp_all
  have "sint w = signed_take_bit 31 (uint w)"
    by (simp add: sint_uint)
  also have "\<dots> = uint w"
    using ge lt by (rule signed_take_bit_int_eq_self)
  finally show ?thesis .
qed

lemma unique_bound: "length (np_unique (map uint (cols :: 32 word list))) \<le> 2 ^ 32"
proof -
  have "length (np_unique (map uint cols)) = card (set (map uint cols))"
    by (simp add: np_unique_def length_remdups_card_conv)
  also have "\<dots> \<le> card {0 ..< (2 ^ 32 :: int)}"
  proof (rule card_mono)
    show "set (map uint cols) \<subseteq> {0 ..< (2 ^ 32 :: int)}"
      using uint_lt2p [where 'a = 32] by auto
  qed simp
  finally show ?thesis by simp
qed

text \<open>
  Along \<open>by_popularity\<close> the number of occurrences of an item never increases: the
  order is from the most to the least frequent item, whatever the argsort does with
  equal counts.
\<close>

lemma by_popularity_sorted:
  assumes "is_argsort asort"
  shows "sorted_wrt (\<lambda>c c'. count_list (map uint cols) c' \<le> count_list (map uint cols) c)
           (by_popularity asort cols)"
proof -
  let ?xs = "map uint cols"
  let ?u = "np_unique ?xs"
  let ?c = "unique_counts ?xs"
  let ?p = "asort ?c"
  have len: "length ?c = length ?u" by (simp add: unique_counts_def)
  from assms have perm: "mset ?p = mset [0..<length ?c]" and srt: "sorted (map ((!) ?c) ?p)"
    by (simp_all add: is_argsort_def)
  from perm have "set ?p = set [0..<length ?c]" by (rule mset_eq_setD)
  then have idx: "\<forall>i \<in> set ?p. i < length ?u" by (simp add: len)
  have "map (count_list ?xs \<circ> (!) ?u) ?p = map ((!) ?c) ?p"
    by (rule map_cong [OF refl]) (use idx in \<open>simp add: unique_counts_def\<close>)
  then have "map (count_list ?xs) (map ((!) ?u) ?p) = map ((!) ?c) ?p"
    by (simp only: map_map)
  with srt have "sorted (map (count_list ?xs) (map ((!) ?u) ?p))" by (simp only:)
  then have "sorted_wrt (\<lambda>c c'. count_list ?xs c \<le> count_list ?xs c') (map ((!) ?u) ?p)"
    by (simp only: sorted_map)
  then have "sorted_wrt (\<lambda>c c'. count_list ?xs c' \<le> count_list ?xs c) (rev (map ((!) ?u) ?p))"
    by (simp only: sorted_wrt_rev)
  then show ?thesis by (simp only: by_popularity_def rev_map)
qed


lemma remove_top_pop_returned:
  assumes srt: "is_argsort asort" and r: "0 < r"
    and lens: "length rows = length cols" "length cols = length data"
    and bf: "build_URM_from asort imp r rows cols data = Inr b"
  defines "U \<equiv> length (np_unique (map uint cols))"
  defines "removed \<equiv> take (top_pop_k U r) (by_popularity asort cols)"
  shows "snd (shape (urm b)) = U - top_pop_k U r
       \<and> (\<forall>c \<in> set removed. col_to_item b c = None)
       \<and> (\<forall>c \<in> set removed. \<forall>c' \<in> set (map uint cols) - set removed.
             count_list (map uint cols) c' \<le> count_list (map uint cols) c)
       \<and> (\<forall>e \<in> set (entries (urm b)).
             \<exists>c \<in> set (map uint cols) - set removed. col_to_item b c = Some (snd (fst e)))
       \<and> entries (urm b)
           = map (\<lambda>(u, i, v). ((the (row_to_user b (sint u)), the (col_to_item b (sint i))), v))
                 (filter (\<lambda>(u, i, v). uint i \<notin> set removed)
                         (zip rows (zip cols (if imp then replicate (length data) 1 else data))))"
proof -
  let ?k = "top_pop_k U r"
  let ?pop = "by_popularity asort cols"
  let ?kept = "drop ?k ?pop"
  let ?data1 = "if imp then replicate (length data) 1 else data"
  let ?mask = "np_isin (map uint cols) ?kept"
  let ?f = "remove_top asort r rows cols ?data1"
  note B = build_URM_from_Inr [OF bf]
  note P = by_popularity_props [OF srt, of cols]
  have f: "f_rows ?f = mask_select ?mask (map sint rows)"
          "f_cols ?f = mask_select ?mask (map sint cols)"
          "f_data ?f = mask_select ?mask ?data1"
          "f_unique_items ?f = ?kept"
    using r by (simp_all add: remove_top_def Let_def U_def)
  have len: "length rows = length cols" "length cols = length ?data1"
    using lens by simp_all
  have split: "set ?kept \<inter> set removed = {}" "set ?kept \<union> set removed = set (map uint cols)"
  proof -
    from P(1) show "set ?kept \<inter> set removed = {}"
      unfolding removed_def by (metis Int_commute append_take_drop_id distinct_append)
    have "set ?kept \<union> set removed = set ?pop"
      unfolding removed_def by (metis Un_commute append_take_drop_id set_append)
    with P(2) show "set ?kept \<union> set removed = set (map uint cols)" by simp
  qed
  have dom: "dom (col_to_item b) = set ?kept"
    using B(2) f(4) by (simp add: index_map_dom)
  have c1: "snd (shape (urm b)) = U - top_pop_k U r"
    using B(3) f(4) P(3) by (simp add: U_def)
  have c5: "\<forall>c \<in> set removed. \<forall>c' \<in> set (map uint cols) - set removed.
             count_list (map uint cols) c' \<le> count_list (map uint cols) c"
  proof -
    have "sorted_wrt (\<lambda>c c'. count_list (map uint cols) c' \<le> count_list (map uint cols) c)
            (take ?k ?pop @ drop ?k ?pop)"
      using by_popularity_sorted [OF srt, of cols] by simp
    then have "\<forall>c \<in> set (take ?k ?pop). \<forall>c' \<in> set (drop ?k ?pop).
                 count_list (map uint cols) c' \<le> count_list (map uint cols) c"
      by (simp only: sorted_wrt_append) blast
    moreover have "set (map uint cols) - set removed \<subseteq> set ?kept"
      using split by blast
    ultimately show ?thesis
      unfolding removed_def by blast
  qed
  have c2: "\<forall>c \<in> set removed. col_to_item b c = None"
    using dom split(1) by (auto simp: dom_def)
  have c3: "\<forall>e \<in> set (entries (urm b)).
           \<exists>c \<in> set (map uint cols) - set removed. col_to_item b c = Some (snd (fst e))"
  proof
    fix e assume "e \<in> set (entries (urm b))"
    then have "snd (fst e) \<in> set (map (the \<circ> col_to_item b) (f_cols ?f))"
      unfolding B(4) by (rule zip_zip_mid)
    then obtain x where x: "x \<in> set (f_cols ?f)" "snd (fst e) = the (col_to_item b x)"
      by auto
    with B(5) obtain j where j: "col_to_item b x = Some j" by auto
    then have "x \<in> set ?kept" using dom by (auto simp: dom_def)
    with split have "x \<in> set (map uint cols) - set removed" by auto
    with x j show "\<exists>c \<in> set (map uint cols) - set removed. col_to_item b c = Some (snd (fst e))"
      by auto
  qed
  have mask: "?mask = map (\<lambda>i. uint i \<in> set ?kept) cols"
    by (simp add: np_isin_def comp_def)
  have "entries (urm b)
      = map (\<lambda>(u, i, v). ((the (row_to_user b (sint u)), the (col_to_item b (sint i))), v))
            (filter (\<lambda>(u, i, v). uint i \<in> set ?kept) (zip rows (zip cols ?data1)))"
    unfolding B(4) f mask
    using lock_step [OF len, of "the \<circ> row_to_user b" "\<lambda>i. uint i \<in> set ?kept" sint
                        "the \<circ> col_to_item b" sint]
    by (simp add: comp_def)
  also have "filter (\<lambda>(u, i, v). uint i \<in> set ?kept) (zip rows (zip cols ?data1))
           = filter (\<lambda>(u, i, v). uint i \<notin> set removed) (zip rows (zip cols ?data1))"
  proof (rule filter_cong [OF refl])
    fix t assume "t \<in> set (zip rows (zip cols ?data1))"
    then have "fst (snd t) \<in> set cols"
      by (rule zip_zip_mid3)
    then have "uint (fst (snd t)) \<in> set ?kept \<union> set removed"
      unfolding split(2) by simp
    with split(1) show "(case t of (u, i, v) \<Rightarrow> uint i \<in> set ?kept)
                      = (case t of (u, i, v) \<Rightarrow> uint i \<notin> set removed)"
      by (cases t) auto
  qed
  finally have c4: "entries (urm b)
         = map (\<lambda>(u, i, v). ((the (row_to_user b (sint u)), the (col_to_item b (sint i))), v))
               (filter (\<lambda>(u, i, v). uint i \<notin> set removed)
                       (zip rows (zip cols ?data1)))" .
  from c1 c2 c5 c3 c4 show ?thesis by (intro conjI)
qed


text \<open>
  C5 (as amended). For every parsed set of interactions whose item ids are below \<open>2^31\<close>,
  with \<open>U\<close> unique item ids, and every removal fraction \<open>r\<close> in \<open>(0, 1)\<close>,
  \<^verbatim>\<open>build_URM\<close> returns a matrix with \<open>U - k\<close> columns, where \<open>k\<close> is the floor of the
  double that the multiplication \<^verbatim>\<open>len(unique_items) * remove_top_pop\<close> gives. The \<open>k\<close>
  removed items are at least as frequent as every other item and have no column; every
  entry lies in the column of an item that was not removed, and the entries are the
  interactions whose item was not removed, in their order, with rows, columns and values
  filtered in lock-step.
\<close>

theorem build_URM_remove_top_pop:
  assumes srt: "is_argsort asort" and r: "0 < r" "r < 1"
    and rd: "read_interactions p_int p_float lines cols_of delim hdr = Inr (rows, cols, data)"
    and small: "\<forall>i \<in> set cols. uint i < 2 ^ 31"
  defines "U \<equiv> length (np_unique (map uint cols))"
  defines "k \<equiv> nat \<lfloor>round_double (real U * r)\<rfloor>"
  defines "removed \<equiv> take k (by_popularity asort cols)"
  shows "\<exists>b. build_URM asort p_int p_float lines cols_of delim hdr imp r = Inr b
       \<and> snd (shape (urm b)) = U - k
       \<and> (\<forall>c \<in> set removed. col_to_item b c = None)
       \<and> (\<forall>c \<in> set removed. \<forall>c' \<in> set (map uint cols) - set removed.
             count_list (map uint cols) c' \<le> count_list (map uint cols) c)
       \<and> (\<forall>e \<in> set (entries (urm b)).
             \<exists>c \<in> set (map uint cols) - set removed. col_to_item b c = Some (snd (fst e)))
       \<and> entries (urm b)
           = map (\<lambda>(u, i, v). ((the (row_to_user b (sint u)), the (col_to_item b (uint i))), v))
                 (filter (\<lambda>(u, i, v). uint i \<notin> set removed)
                         (zip rows (zip cols (if imp then replicate (length data) 1 else data))))"
proof -
  let ?data1 = "if imp then replicate (length data) 1 else data"
  let ?kept = "filter (\<lambda>(u, i, v). uint i \<notin> set removed) (zip rows (zip cols ?data1))"
  have lens: "length rows = length cols" "length cols = length data"
    using read_interactions_lengths [OF rd] by simp_all
  have signed: "\<forall>c \<in> set cols. sint c = uint c"
    using small by (simp add: sint_small)
  have "real U * r \<le> real U * 1"
    using r by (intro mult_left_mono) simp_all
  also have "\<dots> \<le> real (2 ^ 32)"
    using unique_bound [of cols] unfolding U_def by (simp only: mult_1_right of_nat_le_iff)
  also have "\<dots> < 2 ^ 64" by simp
  finally have "real U * r < 2 ^ 64" .
  moreover have "0 \<le> real U * r" using r by simp
  ultimately have fin: "\<not> overflows (real U * r)"
    by (simp add: small_no_overflow)
  from build_URM_from_succeeds [OF srt lens, of r imp] signed fin
  obtain b where bf: "build_URM_from asort imp r rows cols data = Inr b"
    unfolding U_def by blast
  with rd have bd: "build_URM asort p_int p_float lines cols_of delim hdr imp r = Inr b"
    by (simp add: build_URM_def)
  note R = remove_top_pop_returned [OF srt r(1) lens bf, folded U_def, unfolded top_pop_k_def,
                                    folded k_def, folded removed_def]
  have "map (\<lambda>(u, i, v). ((the (row_to_user b (sint u)), the (col_to_item b (sint i))), v)) ?kept
      = map (\<lambda>(u, i, v). ((the (row_to_user b (sint u)), the (col_to_item b (uint i))), v)) ?kept"
  proof (rule map_cong [OF refl])
    fix t assume "t \<in> set ?kept"
    then have "t \<in> set (zip rows (zip cols ?data1))" by simp
    then have "fst (snd t) \<in> set cols" by (rule zip_zip_mid3)
    with signed have "sint (fst (snd t)) = uint (fst (snd t))" by blast
    then show "(case t of (u, i, v) \<Rightarrow>
                  ((the (row_to_user b (sint u)), the (col_to_item b (sint i))), v))
             = (case t of (u, i, v) \<Rightarrow>
                  ((the (row_to_user b (sint u)), the (col_to_item b (uint i))), v))"
      by (cases t) simp
  qed
  with R have "snd (shape (urm b)) = U - k
       \<and> (\<forall>c \<in> set removed. col_to_item b c = None)
       \<and> (\<forall>c \<in> set removed. \<forall>c' \<in> set (map uint cols) - set removed.
             count_list (map uint cols) c' \<le> count_list (map uint cols) c)
       \<and> (\<forall>e \<in> set (entries (urm b)).
             \<exists>c \<in> set (map uint cols) - set removed. col_to_item b c = Some (snd (fst e)))
       \<and> entries (urm b)
           = map (\<lambda>(u, i, v). ((the (row_to_user b (sint u)), the (col_to_item b (uint i))), v))
                 ?kept"
    by simp
  with bd show ?thesis by blast
qed

theorem build_URM_remove_top_pop_witness:
  "\<exists>b. build_URM stable_argsort dec_int dec_float popular_lines three_cols '','' False False (1 / 2)
          = Inr b
       \<and> snd (shape (urm b)) = 2"
proof -
  let ?cols = "[10, 20, 20, 20, 30, 30] :: 32 word list"
  have rd: "read_interactions dec_int dec_float popular_lines three_cols '','' False
          = Inr ([1, 1, 2, 3, 2, 3], ?cols, [5, 4, 3, 2, 5, 1])"
    by code_simp
  have U: "length (np_unique (map uint ?cols)) = 3"
    by code_simp
  have k: "nat \<lfloor>round_double (real 3 * (1 / 2))\<rfloor> = 1"
    by code_simp
  have r: "(0::real) < 1 / 2" "(1 / 2 :: real) < 1" by simp_all
  have small: "\<forall>i \<in> set ?cols. uint i < 2 ^ 31" by simp
  from build_URM_remove_top_pop [OF stable_argsort_ok r rd small, of False]
  show ?thesis
    unfolding U k by auto
qed

text \<open>
  C5 as stated fails: \<open>floor (U * r)\<close> is not what line 394 computes. With three unique
  items and the double nearest to one third as the fraction, \<open>U * r\<close> is below 1 and its
  floor is 0, but the product rounds to the double 1.0, one item is removed, and the
  matrix has two columns instead of three.
\<close>

theorem build_URM_float_floor_counterexample:
  "0 < third \<and> third < 1
   \<and> read_interactions dec_int dec_float popular_lines three_cols '','' False
       = Inr ([1, 1, 2, 3, 2, 3], [10, 20, 20, 20, 30, 30], [5, 4, 3, 2, 5, 1])
   \<and> length (np_unique (map uint [10, 20, 20, 20, 30, 30 :: 32 word])) = 3
   \<and> (3 :: nat) - nat \<lfloor>real 3 * third\<rfloor> = 3
   \<and> map_sum id (snd \<circ> shape \<circ> urm)
        (build_URM stable_argsort dec_int dec_float popular_lines three_cols '','' False False third)
       = Inr 2"
proof -
  have a: "0 < third" "third < 1" by (simp_all add: third_def)
  have b: "read_interactions dec_int dec_float popular_lines three_cols '','' False
       = Inr ([1, 1, 2, 3, 2, 3], [10, 20, 20, 20, 30, 30], [5, 4, 3, 2, 5, 1])"
    by code_simp
  have c: "length (np_unique (map uint [10, 20, 20, 20, 30, 30 :: 32 word])) = 3"
    by code_simp
  have d: "(3 :: nat) - nat \<lfloor>real 3 * third\<rfloor> = 3" by (simp add: third_def)
  have e: "map_sum id (snd \<circ> shape \<circ> urm)
        (build_URM stable_argsort dec_int dec_float popular_lines three_cols '','' False False third)
       = Inr 2"
    by code_simp
  from a b c d e show ?thesis by (intro conjI)
qed




end
